theory Spec2Isabelle
  imports Complex_Main "HOL-Library.AList" "HOL-Library.Log_Nat"
begin

section \<open>Python values\<close>

text \<open>
  Python ints are \<open>int\<close>, strings are \<open>string\<close> (the texts are ASCII) and a \<open>dict\<close> is an
  association list in insertion order with distinct keys: \<open>d[k] = v\<close> and
  \<open>d.update({k : v})\<close> are \<open>AList.update k v d\<close> (an existing key keeps its place, a new
  key goes to the end), \<open>d[k]\<close> is \<open>map_of d k\<close> and raises \<open>KeyError\<close> where that is
  \<open>None\<close>. Every exception the source can raise is a value of \<open>error\<close>.
\<close>

datatype error =
    KeyError
  | ZeroDivisionError
  | UnboundLocalError
  | AttributeError
  | IndexError
  | ValueError
  | FileNotFoundError

type_synonym comp = "(int \<times> real) list"

text \<open>
  A Python float is modelled by the real number it stands for; comparisons and \<open>abs\<close> are
  then exact, as they are on floats. The arithmetic that produces floats is a parameter
  of the model: \<open>lit\<close> is the float of a literal of the source, \<open>fadd\<close>, \<open>fsub\<close>, \<open>fmul\<close>
  and \<open>fdiv\<close> are \<open>+\<close>, \<open>-\<close>, \<open>*\<close> and \<open>/\<close> on floats, and \<open>fround x n\<close> is \<open>round(x, n)\<close>.
\<close>

record arith =
  lit :: "real \<Rightarrow> real"
  fadd :: "real \<Rightarrow> real \<Rightarrow> real"
  fsub :: "real \<Rightarrow> real \<Rightarrow> real"
  fmul :: "real \<Rightarrow> real \<Rightarrow> real"
  fdiv :: "real \<Rightarrow> real \<Rightarrow> real"
  fround :: "real \<Rightarrow> nat \<Rightarrow> real"

text \<open>The nearest integer, a tie going to the even one.\<close>

definition round_half_even :: "real \<Rightarrow> int" where
  "round_half_even y =
     (let f = \<lfloor>y\<rfloor>;
          d = y - of_int f
      in if d < 1 / 2 then f
         else if 1 / 2 < d then f + 1
         else if even f then f
         else f + 1)"

text \<open>The nearest multiple of \<open>10^-n\<close>, a tie going to the even one: the decimal
  rounding that \<open>round(x, n)\<close> applies to the value of \<open>x\<close>.\<close>

definition py_round :: "real \<Rightarrow> nat \<Rightarrow> real" where
  "py_round x n = of_int (round_half_even (x * 10 ^ n)) / 10 ^ n"

text \<open>Arithmetic without rounding error: the reals themselves.\<close>

definition exact :: arith where
  "exact = \<lparr>lit = (\<lambda>x. x), fadd = (+), fsub = (-), fmul = (*), fdiv = (/),
            fround = py_round\<rparr>"

text \<open>
  The arithmetic of the machine, IEEE 754 binary64 with rounding to nearest, ties to even,
  for results in the normal range: \<open>ilog2 a\<close> is the exponent \<open>k\<close> with
  \<open>2^k \<le> a < 2^(k+1)\<close> of a positive \<open>a\<close>, \<open>mul_pow2 x e\<close> is \<open>x * 2^e\<close>, and \<open>double x\<close>
  is the float nearest to \<open>x\<close>, which has 53 significant bits. Each operation returns the
  float nearest to its exact result, and \<open>round(x, n)\<close> the float nearest to the decimal
  rounding of \<open>x\<close>.
\<close>

definition ilog2 :: "real \<Rightarrow> int" where
  "ilog2 a =
     (if 1 \<le> a then bitlen \<lfloor>a\<rfloor> - 1
      else (let j = bitlen \<lfloor>1 / a\<rfloor> - 1
            in if a * 2 ^ nat j = 1 then - j else - j - 1))"

definition mul_pow2 :: "real \<Rightarrow> int \<Rightarrow> real" where
  "mul_pow2 x e = (if 0 \<le> e then x * 2 ^ nat e else x / 2 ^ nat (- e))"

definition double :: "real \<Rightarrow> real" where
  "double x =
     (if x = 0 then 0
      else (let e = ilog2 \<bar>x\<bar> - 52
            in mul_pow2 (of_int (round_half_even (mul_pow2 x (- e)))) e))"

definition binary64 :: arith where
  "binary64 = \<lparr>lit = double,
               fadd = (\<lambda>a b. double (a + b)),
               fsub = (\<lambda>a b. double (a - b)),
               fmul = (\<lambda>a b. double (a * b)),
               fdiv = (\<lambda>a b. double (a / b)),
               fround = (\<lambda>x n. double (py_round x n))\<rparr>"

text \<open>\<open>a / b\<close> raises on a zero divisor.\<close>

definition py_div :: "arith \<Rightarrow> real \<Rightarrow> real \<Rightarrow> error + real" where
  "py_div A a b = (if b = 0 then Inl ZeroDivisionError else Inr (fdiv A a b))"


section \<open>material\_data.py\<close>

definition rhos :: "arith \<Rightarrow> string \<rightharpoonup> real" where
  "rhos A = map_of [(''UO2'', lit A 10.97), (''W'', lit A 19.3), (''UN'', lit A 11.3)]"

definition mats :: "arith \<Rightarrow> string \<rightharpoonup> comp" where
  "mats A = map_of
     [(''UO2'', [(8016, lit A 0.15204), (92000, lit A 0.84796)]),
      (''UN'', [(92000, lit A 0.94441), (7015, lit A 0.05559)]),
      (''CO2'', [(6000, lit A 0.27291), (8016, lit A 0.72709)]),
      (''W'', [(74180, lit A 0.0011746), (74182, lit A 0.26227), (74183, lit A 0.14241),
               (74184, lit A 0.30658), (74186, lit A 0.28757)]),
      (''H2O'', [(1001, lit A 0.11187), (1002, lit A 0.000025713), (8016, lit A 0.88811)])]"

text \<open>One round of the loop of \<open>enrich_fuel\<close> over the template: \<open>v\<close> is
  \<open>mats[fuel][isotope]\<close>, which in the branch of isotope 92000 is \<open>mats[fuel][92000]\<close>.\<close>

definition enrich_step :: "arith \<Rightarrow> real \<Rightarrow> int \<times> real \<Rightarrow> comp \<Rightarrow> comp" where
  "enrich_step A enrich p fuel_comp =
     (if fst p = 92000
      then AList.update 92238 (fmul A (snd p) (fsub A (lit A 1) enrich))
             (AList.update 92235 (fmul A (snd p) enrich) fuel_comp)
      else AList.update (fst p) (snd p) fuel_comp)"

text \<open>\<open>base + 1 / ((enrich / mmU25) + ((1-enrich) / mmU28))\<close>, in the order in which Python
  evaluates it.\<close>

definition molar_mass :: "arith \<Rightarrow> real \<Rightarrow> real \<Rightarrow> error + real" where
  "molar_mass A base enrich =
     (let mmU25 = lit A 235.04;
          mmU28 = lit A 238.05
      in (case py_div A enrich mmU25 of
            Inl e \<Rightarrow> Inl e
          | Inr a \<Rightarrow>
         (case py_div A (fsub A (lit A 1) enrich) mmU28 of
            Inl e \<Rightarrow> Inl e
          | Inr b \<Rightarrow>
         (case py_div A (lit A 1) (fadd A a b) of
            Inl e \<Rightarrow> Inl e
          | Inr q \<Rightarrow> Inr (fadd A base q)))))"

text \<open>\<open>mmfuel\<close> is assigned only under \<open>fuel == 'UN'\<close> and under \<open>fuel == 'UO2'\<close>;
  returning it unassigned raises \<open>UnboundLocalError\<close>.\<close>

definition enrich_fuel :: "arith \<Rightarrow> real \<Rightarrow> string \<Rightarrow> error + (comp \<times> real)" where
  "enrich_fuel A enrich fuel =
     (case mats A fuel of
        None \<Rightarrow> Inl KeyError
      | Some tmpl \<Rightarrow>
          (let fuel_comp = fold (enrich_step A enrich) tmpl [];
               mmO = lit A 32;
               mmN = lit A 14.0067
           in if fuel = ''UN''
              then (case molar_mass A mmN enrich of
                      Inl e \<Rightarrow> Inl e
                    | Inr mmfuel \<Rightarrow> Inr (fuel_comp, mmfuel))
              else if fuel = ''UO2''
              then (case molar_mass A mmO enrich of
                      Inl e \<Rightarrow> Inl e
                    | Inr mmfuel \<Rightarrow> Inr (fuel_comp, mmfuel))
              else Inl UnboundLocalError))"

section \<open>mcnp\_inputs.py\<close>

text \<open>One round of the loop of \<open>merge_comps\<close>: \<open>p\<close> is an item of \<open>compB\<close>.\<close>

definition merge_step :: "arith \<Rightarrow> int \<times> real \<Rightarrow> comp \<Rightarrow> comp" where
  "merge_step A p compA =
     (case map_of compA (fst p) of
        Some a \<Rightarrow> AList.update (fst p) (fadd A a (snd p)) compA
      | None \<Rightarrow> AList.update (fst p) (snd p) compA)"

definition merge_comps :: "arith \<Rightarrow> comp \<Rightarrow> comp \<Rightarrow> comp" where
  "merge_comps A compA compB = fold (merge_step A) compB compA"

text \<open>The attributes \<open>rho\<close>, \<open>MM_fuel\<close> and \<open>fuel_string\<close> do not exist until a method
  assigns them: \<open>None\<close> is the missing attribute.\<close>

record HomogeneousInput =
  z :: real
  r :: real
  vfrac_fuel :: real
  t_refl :: real
  rho :: "real option"
  MM_fuel :: "real option"
  fuel_string :: "string option"

definition init :: "real \<Rightarrow> real \<Rightarrow> real \<Rightarrow> real \<Rightarrow> HomogeneousInput" where
  "init radius len vfrac refl_t =
     \<lparr>z = len, r = radius, vfrac_fuel = vfrac, t_refl = refl_t,
      rho = None, MM_fuel = None, fuel_string = None\<rparr>"

text \<open>\<open>if matr:\<close> holds for a non-empty string; \<open>None\<close> and the empty string are false.\<close>

definition truthy :: "string option \<Rightarrow> bool" where
  "truthy matr = (case matr of None \<Rightarrow> False | Some m \<Rightarrow> m \<noteq> [])"

text \<open>Lines 63 to 67 of \<open>homog_core\<close>: the pair \<open>(matr_frac, mfrac_matr)\<close>.\<close>

definition matr_split :: "arith \<Rightarrow> real \<Rightarrow> string option \<Rightarrow> error + (real \<times> real)" where
  "matr_split A vfrac matr =
     (case matr of
        None \<Rightarrow> Inr (lit A 1, lit A 0)
      | Some m \<Rightarrow>
          if m = [] then Inr (lit A 1, lit A 0)
          else (case rhos A m of
                  None \<Rightarrow> Inl KeyError
                | Some rho_matr \<Rightarrow>
                    Inr (lit A 0.6,
                         fmul A (fmul A vfrac rho_matr) (fsub A (lit A 1) (lit A 0.6)))))"

text \<open>\<open>{iso : comp*mfrac / rho for iso, comp in d.items()}\<close>: the items of a dict have
  distinct keys, so the comprehension is a map over them; the first division raises when
  \<open>rho\<close> is zero.\<close>

definition normed :: "arith \<Rightarrow> real \<Rightarrow> real \<Rightarrow> comp \<Rightarrow> error + comp" where
  "normed A mfrac rho_s d =
     (if d \<noteq> [] \<and> rho_s = 0 then Inl ZeroDivisionError
      else Inr (map (\<lambda>p. (fst p, fdiv A (fmul A (snd p) mfrac) rho_s)) d))"

text \<open>The dict \<open>components\<close>, in insertion order: fuel, coolant and, under \<open>if matr:\<close>,
  matrix.\<close>

definition components :: "arith \<Rightarrow> real \<Rightarrow> real \<Rightarrow> real \<Rightarrow> real \<Rightarrow> comp \<Rightarrow> string \<Rightarrow>
    string option \<Rightarrow> error + comp list" where
  "components A mfrac_fuel mfrac_cool mfrac_matr rho_s fuel_comp cool matr =
     (case normed A mfrac_fuel rho_s fuel_comp of
        Inl e \<Rightarrow> Inl e
      | Inr nf \<Rightarrow>
     (case mats A cool of
        None \<Rightarrow> Inl KeyError
      | Some cool_comp \<Rightarrow>
     (case normed A mfrac_cool rho_s cool_comp of
        Inl e \<Rightarrow> Inl e
      | Inr nc \<Rightarrow>
          if truthy matr
          then (case mats A (case matr of Some m \<Rightarrow> m | None \<Rightarrow> []) of
                  None \<Rightarrow> Inl KeyError
                | Some matr_comp \<Rightarrow>
                    (case normed A mfrac_matr rho_s matr_comp of
                       Inl e \<Rightarrow> Inl e
                     | Inr nm \<Rightarrow> Inr [nf, nc, nm]))
          else Inr [nf, nc])))"

text \<open>\<open>homog_core\<close> returns the object as the call leaves it, also when it raises, and
  the composition or the exception.\<close>

definition homog_core :: "arith \<Rightarrow> HomogeneousInput \<Rightarrow> string \<Rightarrow> string \<Rightarrow> string option \<Rightarrow>
    real \<Rightarrow> real \<Rightarrow> real \<Rightarrow> real \<Rightarrow> HomogeneousInput \<times> (error + comp)" where
  "homog_core A self fuel cool matr enrich r_cool rho_cool c =
     (case matr_split A (vfrac_fuel self) matr of
        Inl e \<Rightarrow> (self, Inl e)
      | Inr (matr_frac, mfrac_matr) \<Rightarrow>
     (case rhos A fuel of
        None \<Rightarrow> (self, Inl KeyError)
      | Some rho_fuel \<Rightarrow>
          (let mfrac_fuel = fmul A (fmul A (vfrac_fuel self) rho_fuel) matr_frac;
               mfrac_cool = fmul A (fsub A (lit A 1) (vfrac_fuel self)) rho_cool;
               rho_s = fround A (fadd A (fadd A mfrac_fuel mfrac_cool) mfrac_matr) 5;
               self1 = self\<lparr>rho := Some rho_s\<rparr>
           in (case enrich_fuel A enrich fuel of
                 Inl e \<Rightarrow> (self1, Inl e)
               | Inr (fuel_comp, mmfuel) \<Rightarrow>
                   (let self2 = self1\<lparr>MM_fuel := Some mmfuel\<rparr>
                    in (case components A mfrac_fuel mfrac_cool mfrac_matr rho_s
                               fuel_comp cool matr of
                          Inl e \<Rightarrow> (self2, Inl e)
                        | Inr cs \<Rightarrow>
                            (self2, Inr (fold (\<lambda>part homog_comp.
                                           merge_comps A homog_comp part) cs []))))))))"

text \<open>
  What the source takes from Python's library and from outside is a parameter of the
  model: \<open>str_int\<close> is the format \<open>{0}\<close> of an int, \<open>fmt_5e\<close> the format \<open>{1:.5e}\<close> of a
  float, \<open>str_float\<close> the default format of a float, \<open>py_float\<close> the builtin \<open>float\<close> on
  a string (\<open>None\<close> where it raises \<open>ValueError\<close>), \<open>substitute\<close> the method of
  \<open>string.Template\<close>, applied to the template text and the keyword arguments, and
  \<open>mcnp6\<close> the external solver, which takes its argument and changes the files.
\<close>

type_synonym files = "string \<rightharpoonup> string"

record env =
  str_int :: "int \<Rightarrow> string"
  fmt_5e :: "real \<Rightarrow> string"
  str_float :: "real \<Rightarrow> string"
  py_float :: "string \<Rightarrow> real option"
  substitute :: "string \<Rightarrow> (string \<times> string) list \<Rightarrow> error + string"
  mcnp6 :: "string \<Rightarrow> files \<Rightarrow> files"

definition NL :: char where
  "NL = CHR 0x0A"

definition CR :: char where
  "CR = CHR 0x0D"

text \<open>The loop of \<open>write_mat_string\<close> over \<open>enumerate(sorted(homog_comp.keys()))\<close>, from
  index \<open>idx\<close> on, with the string written so far.\<close>

fun write_loop :: "env \<Rightarrow> comp \<Rightarrow> nat \<Rightarrow> int list \<Rightarrow> string \<Rightarrow> error + string" where
  "write_loop E homog_comp idx [] s = Inr s"
| "write_loop E homog_comp idx (isotope # rest) s =
     (case map_of homog_comp isotope of
        None \<Rightarrow> Inl KeyError
      | Some v \<Rightarrow>
          if \<bar>v\<bar> = 0 then write_loop E homog_comp (idx + 1) rest s
          else (let s1 = s @ ''     '' @ str_int E isotope @ '' -'' @ fmt_5e E v;
                    s2 = (if int idx < int (length homog_comp) - 1 then s1 @ [NL] else s1)
                in write_loop E homog_comp (idx + 1) rest s2))"

definition write_mat_string :: "env \<Rightarrow> HomogeneousInput \<Rightarrow> comp \<Rightarrow>
    error + HomogeneousInput" where
  "write_mat_string E self homog_comp =
     (case write_loop E homog_comp 0 (sort (map fst homog_comp)) (''m1'' @ [NL]) of
        Inl e \<Rightarrow> Inl e
      | Inr s \<Rightarrow> Inr (self\<lparr>fuel_string := Some s\<rparr>))"

definition write_input :: "arith \<Rightarrow> env \<Rightarrow> files \<Rightarrow> HomogeneousInput \<Rightarrow> string \<Rightarrow> string \<Rightarrow>
    error + files" where
  "write_input A E fs self name header =
     (case fs ''base_input.txt'' of
        None \<Rightarrow> Inl FileNotFoundError
      | Some tmpl \<Rightarrow>
     (case fuel_string self of
        None \<Rightarrow> Inl AttributeError
      | Some fstr \<Rightarrow>
     (case rho self of
        None \<Rightarrow> Inl AttributeError
      | Some fuel_rho \<Rightarrow>
     (case substitute E tmpl
             [(''model_information'', header),
              (''r_core'', str_float E (r self)),
              (''core_z'', str_float E (z self)),
              (''refl_t'', str_float E (t_refl self)),
              (''refl_z'', str_float E (fadd A (z self) (fmul A (lit A 2) (t_refl self)))),
              (''r_refl'', str_float E (fadd A (r self) (t_refl self))),
              (''fuel_string'', fstr),
              (''volume'', str_float E
                 (fmul A (fmul A (fmul A (r self) (r self)) (z self)) (lit A pi))),
              (''fuel_rho'', str_float E fuel_rho)] of
        Inl e \<Rightarrow> Inl e
      | Inr file_string \<Rightarrow> Inr (fs(name \<mapsto> file_string))))))"

section \<open>cooled\_cyl.py\<close>

text \<open>\<open>open(name, 'r')\<close> reads with universal newlines: a carriage return with a line
  feed after it, and a carriage return alone, are read as one line feed.\<close>

fun universal_newlines :: "string \<Rightarrow> string" where
  "universal_newlines [] = []"
| "universal_newlines [c] = [if c = CR then NL else c]"
| "universal_newlines (c # d # cs) =
     (if c = CR \<and> d = NL then NL # universal_newlines cs
      else if c = CR then NL # universal_newlines (d # cs)
      else c # universal_newlines (d # cs))"

text \<open>The lines of a text, each with its line feed.\<close>

fun lines_from :: "string \<Rightarrow> string \<Rightarrow> string list" where
  "lines_from cur [] = (if cur = [] then [] else [cur])"
| "lines_from cur (c # cs) =
     (if c = NL then (cur @ [c]) # lines_from [] cs
      else lines_from (cur @ [c]) cs)"

text \<open>\<open>fp.readlines()\<close> on a file opened for reading as text.\<close>

definition readlines :: "string \<Rightarrow> string list" where
  "readlines text = lines_from [] (universal_newlines text)"

text \<open>\<open>sub in line\<close> on strings.\<close>

fun contains :: "string \<Rightarrow> string \<Rightarrow> bool" where
  "contains sub [] = (sub = [])"
| "contains sub (c # cs) = (take (length sub) (c # cs) = sub \<or> contains sub cs)"

text \<open>\<open>line.split()\<close>: the maximal runs of characters that are not white space (of ASCII:
  tab, line feed, vertical tab, form feed, carriage return, the four separators and the
  space).\<close>

definition isspace :: "char \<Rightarrow> bool" where
  "isspace c = (c \<in> set [CHR 0x09, CHR 0x0A, CHR 0x0B, CHR 0x0C, CHR 0x0D,
                          CHR 0x1C, CHR 0x1D, CHR 0x1E, CHR 0x1F, CHR 0x20])"

fun split_from :: "string \<Rightarrow> string \<Rightarrow> string list" where
  "split_from cur [] = (if cur = [] then [] else [cur])"
| "split_from cur (c # cs) =
     (if isspace c then (if cur = [] then split_from [] cs else cur # split_from [] cs)
      else split_from (cur @ [c]) cs)"

definition split :: "string \<Rightarrow> string list" where
  "split line = split_from [] line"

definition parse_output :: "env \<Rightarrow> files \<Rightarrow> string \<Rightarrow> error + real" where
  "parse_output E fs basename =
     (case fs (basename @ ''o'') of
        None \<Rightarrow> Inl FileNotFoundError
      | Some text \<Rightarrow>
          (let lines = readlines text;
               res_idx = map fst (filter (\<lambda>p. contains ''final result'' (snd p))
                                    (enumerate 0 lines))
           in if res_idx = [] then Inl IndexError
              else (let toks = split (lines ! last res_idx)
                    in if length toks \<le> 2 then Inl IndexError
                       else (case py_float E (toks ! 2) of
                               None \<Rightarrow> Inl ValueError
                             | Some keff \<Rightarrow> Inr keff))))"

definition write_inp :: "arith \<Rightarrow> env \<Rightarrow> files \<Rightarrow> real \<Rightarrow> real \<Rightarrow> string \<Rightarrow> string \<Rightarrow>
    string \<Rightarrow> string option \<Rightarrow> real \<Rightarrow> error + files" where
  "write_inp A E fs frac_f core_r basename coolant fuel matr cool_rho =
     (let AR = lit A 1;
          L = fmul A core_r AR;
          input = init core_r L frac_f (lit A 15)
      in (case homog_core A input fuel coolant matr (lit A 0.93) (lit A 0.5) cool_rho
                 (lit A 0.031) of
            (input1, Inl e) \<Rightarrow> Inl e
          | (input1, Inr homog_comp) \<Rightarrow>
              (case write_mat_string E input1 homog_comp of
                 Inl e \<Rightarrow> Inl e
               | Inr input2 \<Rightarrow>
                   write_input A E fs input2 basename ''Fuel Fraction Experiment'')))"

text \<open>\<open>os.remove\<close> raises on a file that does not exist.\<close>

definition os_remove :: "files \<Rightarrow> string \<Rightarrow> error + files" where
  "os_remove fs name =
     (case fs name of
        None \<Rightarrow> Inl FileNotFoundError
      | Some text \<Rightarrow> Inr (fs(name := None)))"

text \<open>\<open>calc_keff_error\<close> returns the files as the evaluation leaves them, also when it
  raises, and \<open>abs(keff - 1.0)\<close> or the exception.\<close>

definition calc_keff_error :: "arith \<Rightarrow> env \<Rightarrow> files \<Rightarrow> real \<Rightarrow> real \<Rightarrow> string \<Rightarrow> string \<Rightarrow>
    string option \<Rightarrow> real \<Rightarrow> files \<times> (error + real)" where
  "calc_keff_error A E fs radius frac_f coolant fuel matr cool_rho =
     (let basename = str_float E (fround A frac_f 5) @ ''_''
                       @ str_float E (fround A radius 5) @ ''.i''
      in (case write_inp A E fs frac_f radius basename coolant fuel matr cool_rho of
            Inl e \<Rightarrow> (fs, Inl e)
          | Inr fs1 \<Rightarrow>
              (let fs2 = mcnp6 E (''n= '' @ basename @ '' tasks 8'') fs1
               in (case parse_output E fs2 basename of
                     Inl e \<Rightarrow> (fs2, Inl e)
                   | Inr keff \<Rightarrow>
                  (case os_remove fs2 (basename @ ''r'') of
                     Inl e \<Rightarrow> (fs2, Inl e)
                   | Inr fs3 \<Rightarrow>
                  (case os_remove fs3 (basename @ ''s'') of
                     Inl e \<Rightarrow> (fs3, Inl e)
                   | Inr fs4 \<Rightarrow>
                  (case os_remove fs4 (basename @ ''o'') of
                     Inl e \<Rightarrow> (fs4, Inl e)
                   | Inr fs5 \<Rightarrow>
                  (case os_remove fs5 basename of
                     Inl e \<Rightarrow> (fs5, Inl e)
                   | Inr fs6 \<Rightarrow> (fs6, Inr \<bar>fsub A keff (lit A 1.0)\<bar>)))))))))"

section \<open>A stub solver for the evaluations\<close>

text \<open>
  The concrete evaluations below run the model with stand-ins for the library and the
  solver: a template without slots, number formats that know the two values of the deck's
  name, and a solver that reads the deck's name from its argument and leaves the three
  files beside the deck, the output file holding a given text.
\<close>

definition stub_solver :: "string \<Rightarrow> string \<Rightarrow> files \<Rightarrow> files" where
  "stub_solver out arg fs =
     (let b = takeWhile (\<lambda>ch. ch \<noteq> CHR '' '') (drop 3 arg)
      in fs(b @ ''r'' \<mapsto> [], b @ ''s'' \<mapsto> [], b @ ''o'' \<mapsto> out))"

definition stub_env :: "string \<Rightarrow> env" where
  "stub_env out =
     \<lparr>str_int = (\<lambda>i. ''0''),
      fmt_5e = (\<lambda>x. ''0''),
      str_float = (\<lambda>x. if x = 30 then ''30.0'' else ''0.5''),
      py_float = (\<lambda>s. if s = ''1.25'' then Some 1.25
                        else if s = ''0.5'' then Some 0.5 else None),
      substitute = (\<lambda>t kw. Inr t),
      mcnp6 = stub_solver out\<rparr>"

definition stub_files :: files where
  "stub_files = [''base_input.txt'' \<mapsto> ''deck'']"

section \<open>The two arithmetics\<close>

text \<open>
  \<open>ilog2\<close> is the binary exponent, and \<open>double x\<close> is within half a unit in the last of
  its 53 bits of \<open>x\<close>.
\<close>

lemma round_half_even_error: "\<bar>of_int (round_half_even y) - y\<bar> \<le> 1 / 2"
proof -
  have "of_int \<lfloor>y\<rfloor> \<le> y" "y < of_int \<lfloor>y\<rfloor> + 1" by linarith+
  then show ?thesis
    by (auto simp: round_half_even_def Let_def abs_le_iff)
qed

lemma mul_pow2_powi: "mul_pow2 x e = x * 2 powi e"
  by (simp add: mul_pow2_def power_int_def field_simps power_inverse)

lemma ilog2_bounds:
  assumes "0 < a"
  shows "2 powi (ilog2 a) \<le> a \<and> a < 2 powi (ilog2 a + 1)"
proof (cases "1 \<le> a")
  case True
  define n where "n = \<lfloor>a\<rfloor>"
  from True have n1: "1 \<le> n" unfolding n_def by linarith
  then have n0: "0 < n" by simp
  have k: "ilog2 a = bitlen n - 1" using True by (simp add: ilog2_def n_def)
  from n0 have b1: "1 \<le> bitlen n" by (simp add: bitlen_alt_def)
  from bitlen_bounds[OF n0] have lo: "2 ^ nat (bitlen n - 1) \<le> n" and hi: "n < 2 ^ nat (bitlen n)"
    by simp_all
  have "real_of_int n \<le> a" "a < real_of_int n + 1" unfolding n_def by linarith+
  moreover from lo have "(2::real) ^ nat (bitlen n - 1) \<le> real_of_int n"
    by (metis of_int_le_iff of_int_numeral of_int_power)
  moreover from hi have "real_of_int n + 1 \<le> (2::real) ^ nat (bitlen n)"
  proof -
    from hi have "n + 1 \<le> 2 ^ nat (bitlen n)" by simp
    then have "real_of_int (n + 1) \<le> real_of_int (2 ^ nat (bitlen n))"
      by (simp only: of_int_le_iff)
    then show ?thesis by simp
  qed
  ultimately have "(2::real) ^ nat (bitlen n - 1) \<le> a" "a < (2::real) ^ nat (bitlen n)"
    by linarith+
  with b1 show ?thesis
    by (simp add: k power_int_def)
next
  case False
  with assms have a1: "a < 1" by simp
  define n where "n = \<lfloor>1 / a\<rfloor>"
  define j where "j = bitlen n - 1"
  from assms a1 have "1 < 1 / a" by simp
  then have n1: "1 \<le> n" unfolding n_def by linarith
  then have n0: "0 < n" by simp
  from n0 have b1: "1 \<le> bitlen n" by (simp add: bitlen_alt_def)
  then have j0: "0 \<le> j" by (simp add: j_def)
  from bitlen_bounds[OF n0] have lo: "2 ^ nat j \<le> n" and hi: "n < 2 ^ nat (bitlen n)"
    by (simp_all add: j_def)
  have nj: "nat (bitlen n) = Suc (nat j)" using b1 by (simp add: j_def nat_diff_distrib Suc_nat_eq_nat_zadd1)
  have fl: "real_of_int n \<le> 1 / a" "1 / a < real_of_int n + 1" unfolding n_def by linarith+
  from lo have lo': "(2::real) ^ nat j \<le> real_of_int n"
    by (metis of_int_le_iff of_int_numeral of_int_power)
  have hi': "real_of_int n + 1 \<le> (2::real) ^ Suc (nat j)"
  proof -
    from hi nj have "n + 1 \<le> 2 ^ Suc (nat j)" by simp
    then have "real_of_int (n + 1) \<le> real_of_int (2 ^ Suc (nat j))"
      by (simp only: of_int_le_iff)
    then show ?thesis by simp
  qed
  from fl lo' have "2 ^ nat j \<le> 1 / a" by linarith
  with assms have up: "a * 2 ^ nat j \<le> 1" by (simp add: field_simps)
  from fl hi' have "1 / a < 2 ^ Suc (nat j)" by linarith
  with assms have dn: "1 < a * 2 ^ Suc (nat j)" by (simp add: field_simps)
  have p: "(2::real) ^ nat j > 0" by simp
  show ?thesis
  proof (cases "a * 2 ^ nat j = 1")
    case True
    then have k: "ilog2 a = - j" using False by (simp add: ilog2_def n_def j_def Let_def)
    from True p have av: "a = 1 / 2 ^ nat j" by (simp add: field_simps)
    have e1: "(2::real) powi (- j) = 1 / 2 ^ nat j"
      using j0 by (simp add: power_int_def power_inverse field_simps)
    have "(2::real) powi (- j + 1) = 2 powi (- j) * 2 powi 1"
      by (rule power_int_add) simp
    then have e2: "(2::real) powi (- j + 1) = 2 / 2 ^ nat j"
      by (simp only: e1) simp
    from p have "1 / 2 ^ nat j \<le> a \<and> a < 2 / 2 ^ nat j"
      by (simp add: av divide_strict_right_mono)
    then show ?thesis by (simp only: k e1 e2)
  next
    case ne: False
    then have k: "ilog2 a = - j - 1" using False by (simp add: ilog2_def n_def j_def Let_def)
    from up ne have lt: "a * 2 ^ nat j < 1" by simp
    have e1: "(2::real) powi (- j) = 1 / 2 ^ nat j"
      using j0 by (simp add: power_int_def power_inverse field_simps)
    have e0: "(2::real) powi (- j - 1) = 1 / 2 ^ Suc (nat j)"
      using j0 by (simp add: power_int_diff e1)
    from dn have "1 / 2 ^ Suc (nat j) \<le> a" by (simp add: field_simps)
    moreover from lt p have "a < 1 / 2 ^ nat j" by (simp add: field_simps)
    ultimately show ?thesis by (simp add: k e0 e1)
  qed
qed

lemma double_error:
  assumes "x \<noteq> 0"
  shows "\<bar>double x - x\<bar> \<le> 2 powi (ilog2 \<bar>x\<bar> - 53)"
proof -
  define e where "e = ilog2 \<bar>x\<bar> - 52"
  define y where "y = x * 2 powi (- e)"
  have p: "(0::real) < 2 powi e" by simp
  have d: "double x = of_int (round_half_even y) * 2 powi e"
    using assms by (simp add: double_def Let_def mul_pow2_powi e_def y_def)
  have "2 powi (- e) * 2 powi e = (1::real)"
    by (simp add: power_int_minus)
  then have xy: "x = y * 2 powi e"
    by (simp add: y_def mult.assoc)
  have "double x - x = (of_int (round_half_even y) - y) * 2 powi e"
    by (simp only: d left_diff_distrib xy[symmetric])
  then have "\<bar>double x - x\<bar> = \<bar>of_int (round_half_even y) - y\<bar> * 2 powi e"
    using p by (simp add: abs_mult)
  also have "\<dots> \<le> (1 / 2) * 2 powi e"
    by (rule mult_right_mono) (use round_half_even_error[of y] p in simp_all)
  also have "\<dots> = 2 powi (e - 1)"
    by (simp add: power_int_diff)
  finally show ?thesis by (simp add: e_def)
qed

lemma exact_simps:
  "lit exact x = x" "fadd exact a b = a + b" "fsub exact a b = a - b"
  "fmul exact a b = a * b" "fdiv exact a b = a / b" "fround exact x n = py_round x n"
  by (simp_all add: exact_def)

lemma binary64_simps:
  "lit binary64 x = double x" "fadd binary64 a b = double (a + b)"
  "fsub binary64 a b = double (a - b)" "fmul binary64 a b = double (a * b)"
  "fdiv binary64 a b = double (a / b)" "fround binary64 x n = double (py_round x n)"
  by (simp_all add: binary64_def)

lemmas double_eval = double_def ilog2_def round_half_even_def py_round_def mul_pow2_def
  compute_bitlen

lemmas hc_defs = homog_core_def init_def matr_split_def rhos_def enrich_fuel_def mats_def
  enrich_step_def molar_mass_def py_div_def components_def normed_def truthy_def
  merge_comps_def merge_step_def Let_def

text \<open>The floats of some literals, as binary fractions.\<close>

lemma double_literals:
  "double 0.84796 = 1909436170012543 / 2251799813685248"
  "double 0.19 = 3422735716801577 / 18014398509481984"
  "double 0.15204 = 2738909149381641 / 18014398509481984"
  "double 0.23389 = 4213387667382741 / 18014398509481984"
  "double 0.12348 = 4448835855901671 / 36028797018963968"
  "double 5.60195 = 3153617491568519 / 562949953421312"
  "double 8.98505 = 5058133478988159 / 562949953421312"
  by (simp_all add: double_eval)

section \<open>Sums of compositions and rounding\<close>








section \<open>enrich\_fuel\<close>




text \<open>
  C9. For a fuel identifier other than \<open>'UN'\<close> and \<open>'UO2'\<close>, \<open>enrich_fuel\<close> raises:
  \<open>UnboundLocalError\<close> at the return when the identifier is in the table (the molar mass
  was never assigned), \<open>KeyError\<close> at the lookup of the template when it is not. So a call
  that returns has fuel \<open>'UN'\<close> or \<open>'UO2'\<close>.
\<close>

theorem enrich_fuel_other_fuel:
  "(fuel \<noteq> ''UN'' \<and> fuel \<noteq> ''UO2'' \<longrightarrow>
      enrich_fuel A e fuel
        = Inl (if fuel \<in> dom (mats A) then UnboundLocalError else KeyError))
   \<and> (enrich_fuel A e fuel = Inr res \<longrightarrow> fuel = ''UN'' \<or> fuel = ''UO2'')"
  by (auto simp add: enrich_fuel_def Let_def split: option.splits)

theorem enrich_fuel_other_fuel_witness:
  "''W'' \<noteq> ''UN'' \<and> ''W'' \<noteq> ''UO2''
   \<and> enrich_fuel exact 0.93 ''W'' = Inl UnboundLocalError
   \<and> enrich_fuel exact 0.93 ''Pu'' = Inl KeyError
   \<and> enrich_fuel exact 1 ''UN''
       = Inr ([(92235, 0.94441), (92238, 0), (7015, 0.05559)], 249.0467)"
proof -
  have "enrich_fuel exact 0.93 ''W'' = Inl UnboundLocalError"
    using enrich_fuel_other_fuel[of "''W''" exact "0.93"] by (simp add: mats_def)
  moreover have "enrich_fuel exact 0.93 ''Pu'' = Inl KeyError"
    using enrich_fuel_other_fuel[of "''Pu''" exact "0.93"] by (simp add: mats_def)
  moreover have "enrich_fuel exact 1 ''UN'' =
      Inr ([(92235, 0.94441), (92238, 0), (7015, 0.05559)], 249.0467)"
    by (simp add: enrich_fuel_def mats_def enrich_step_def molar_mass_def py_div_def Let_def
        exact_simps)
  ultimately show ?thesis by simp
qed

section \<open>homog\_core\<close>

text \<open>
  C10. \<open>homog_core\<close> assigns only the attributes \<open>rho\<close> and \<open>MM_fuel\<close> of the object:
  the object it leaves is the one it was given with those two attributes set, so the height
  \<open>z\<close>, the radius \<open>r\<close>, the volume fraction \<open>vfrac_fuel\<close> and the reflector thickness
  \<open>t_refl\<close> are unchanged. This holds for every input, also when the call raises.
\<close>

theorem homog_core_frame:
  "(\<exists>a b. fst (homog_core A self fuel cool matr enrich r_cool rho_cool c)
             = self\<lparr>rho := a, MM_fuel := b\<rparr>)
   \<and> z (fst (homog_core A self fuel cool matr enrich r_cool rho_cool c)) = z self
   \<and> r (fst (homog_core A self fuel cool matr enrich r_cool rho_cool c)) = r self
   \<and> vfrac_fuel (fst (homog_core A self fuel cool matr enrich r_cool rho_cool c))
       = vfrac_fuel self
   \<and> t_refl (fst (homog_core A self fuel cool matr enrich r_cool rho_cool c)) = t_refl self"
proof -
  let ?s = "fst (homog_core A self fuel cool matr enrich r_cool rho_cool c)"
  have "?s = self \<or> (\<exists>a. ?s = self\<lparr>rho := Some a\<rparr>)
          \<or> (\<exists>a b. ?s = self\<lparr>rho := Some a, MM_fuel := Some b\<rparr>)"
    by (auto simp add: homog_core_def Let_def split: option.splits sum.splits prod.splits)
  then have e: "\<exists>a b. ?s = self\<lparr>rho := a, MM_fuel := b\<rparr>"
  proof (elim disjE exE)
    assume "?s = self"
    then have "?s = self\<lparr>rho := rho self, MM_fuel := MM_fuel self\<rparr>" by simp
    then show ?thesis by blast
  next
    fix a assume "?s = self\<lparr>rho := Some a\<rparr>"
    then have "?s = self\<lparr>rho := Some a, MM_fuel := MM_fuel self\<rparr>" by simp
    then show ?thesis by blast
  next
    fix a b assume "?s = self\<lparr>rho := Some a, MM_fuel := Some b\<rparr>"
    then show ?thesis by blast
  qed
  then obtain a b where "?s = self\<lparr>rho := a, MM_fuel := b\<rparr>" by blast
  then have "z ?s = z self" "r ?s = r self" "vfrac_fuel ?s = vfrac_fuel self"
    "t_refl ?s = t_refl self" by simp_all
  with e show ?thesis by (intro conjI)
qed

text \<open>
  C5. When the fuel (and the matrix, if one is given) has a density in the table,
  \<open>homog_core\<close> sets the smeared density to the sum of the fuel partial
  \<open>vfrac * fuelDensity * matrixSplit\<close>, the coolant partial \<open>(1 - vfrac) * rho_cool\<close> and
  the matrix partial \<open>vfrac * matrixDensity * (1 - matrixSplit)\<close> (0 without a matrix),
  rounded to 5 decimal places, where \<open>matrixSplit\<close> is 0.6 with a matrix, whatever the
  volume fraction, and 1 without. The products, the sum and the rounding are those of the
  arithmetic in use, in the order in which the source applies them.
\<close>

theorem homog_core_smeared_density:
  assumes "rhos A fuel = Some fuelDensity"
    and "truthy matr \<Longrightarrow> \<exists>m. matr = Some m \<and> rhos A m = Some matrixDensity"
  shows "rho (fst (homog_core A self fuel cool matr enrich r_cool rho_cool c)) =
     Some (fround A
       (fadd A
         (fadd A
           (fmul A (fmul A (vfrac_fuel self) fuelDensity)
              (if truthy matr then lit A 0.6 else lit A 1))
           (fmul A (fsub A (lit A 1) (vfrac_fuel self)) rho_cool))
         (if truthy matr
          then fmul A (fmul A (vfrac_fuel self) matrixDensity) (fsub A (lit A 1) (lit A 0.6))
          else lit A 0)) 5)"
proof (cases "truthy matr")
  case True
  with assms(2) obtain m where m: "matr = Some m" "rhos A m = Some matrixDensity" by blast
  from True m have ne: "m \<noteq> []" by (simp add: truthy_def)
  from True m ne assms(1) show ?thesis
    by (simp add: homog_core_def matr_split_def Let_def split: option.splits sum.splits prod.splits)
next
  case False
  then have "matr_split A (vfrac_fuel self) matr = Inr (lit A 1, lit A 0)"
    by (auto simp: truthy_def matr_split_def split: option.splits)
  with False assms(1) show ?thesis
    by (simp add: homog_core_def Let_def split: option.splits sum.splits prod.splits)
qed

theorem homog_core_smeared_density_witness:
  "rhos binary64 ''UO2'' = Some (lit binary64 10.97)
   \<and> rhos binary64 ''W'' = Some (lit binary64 19.3) \<and> truthy (Some ''W'')
   \<and> rho (fst (homog_core binary64 (init 30 30 0.5 15) ''UO2'' ''CO2'' None
                  (lit binary64 0.93) 0.5 (lit binary64 0.23389) (lit binary64 0.031)))
       = Some (lit binary64 5.60195)
   \<and> rho (fst (homog_core binary64 (init 30 30 0.625 15) ''UO2'' ''CO2'' (Some ''W'')
                  (lit binary64 0.93) 0.5 (lit binary64 0.12348) (lit binary64 0.031)))
       = Some (lit binary64 8.98505)
   \<and> rho (fst (homog_core exact (init 30 30 0.9 15) ''UN'' ''CO2'' (Some ''W'')
                  0.93 0.5 0.079082 0.031))
       = Some 13.05791"
proof -
  have a: "rhos binary64 ''UO2'' = Some (lit binary64 10.97)"
    and b: "rhos binary64 ''W'' = Some (lit binary64 19.3)"
    and xa: "rhos exact ''UN'' = Some 11.3" and xb: "rhos exact ''W'' = Some 19.3"
    by (simp_all add: rhos_def exact_simps)
  have t: "truthy (Some ''W'')" and f: "\<not> truthy None" by (simp_all add: truthy_def)
  have 1: "rho (fst (homog_core binary64 (init 30 30 0.5 15) ''UO2'' ''CO2'' None
                  (lit binary64 0.93) 0.5 (lit binary64 0.23389) (lit binary64 0.031)))
       = Some (lit binary64 5.60195)"
    using homog_core_smeared_density[of binary64 "''UO2''" "lit binary64 10.97" "None" 0
        "init 30 30 0.5 15" "''CO2''" "lit binary64 0.93" "0.5" "lit binary64 0.23389"
        "lit binary64 0.031", OF a] f
    by (simp add: init_def binary64_simps double_eval)
  have 2: "rho (fst (homog_core binary64 (init 30 30 0.625 15) ''UO2'' ''CO2'' (Some ''W'')
                  (lit binary64 0.93) 0.5 (lit binary64 0.12348) (lit binary64 0.031)))
       = Some (lit binary64 8.98505)"
    using homog_core_smeared_density[of binary64 "''UO2''" "lit binary64 10.97" "Some ''W''"
        "lit binary64 19.3" "init 30 30 0.625 15" "''CO2''" "lit binary64 0.93" "0.5"
        "lit binary64 0.12348" "lit binary64 0.031", OF a] b t
    by (simp add: init_def binary64_simps double_eval)
  have 3: "rho (fst (homog_core exact (init 30 30 0.9 15) ''UN'' ''CO2'' (Some ''W'')
                  0.93 0.5 0.079082 0.031))
       = Some 13.05791"
    using homog_core_smeared_density[of exact "''UN''" "11.3" "Some ''W''" "19.3"
        "init 30 30 0.9 15" "''CO2''" "0.93" "0.5" "0.079082" "0.031", OF xa] xb t
    by (simp add: init_def exact_simps py_round_def round_half_even_def)
  from a b t 1 2 3 show ?thesis by (intro conjI)
qed

section \<open>Evaluating homog\_core\<close>

lemmas exact_eval = exact_simps py_round_def round_half_even_def
















text \<open>
  C8 (amended). \<open>homog_core\<close> checks no range: in exact arithmetic, for fuel UO2 or UN, a
  coolant of the table and no matrix or one with a density, it returns a composition for
  every volume fraction and every enrichment, inside (0,1) or not, unless a division by
  zero is met (the molar-mass denominator or the rounded density is zero).
\<close>

theorem homog_core_no_range_check:
  assumes fu: "fuel = ''UO2'' \<or> fuel = ''UN''"
    and co: "cool \<in> dom (mats exact)"
    and ma: "truthy matr \<longrightarrow> (\<exists>m. matr = Some m \<and> m \<in> dom (rhos exact))"
    and de: "enrich / 235.04 + (1 - enrich) / 238.05 \<noteq> 0"
    and rn: "rho (fst (homog_core exact self fuel cool matr enrich r_cool rho_cool c)) \<noteq> Some 0"
  shows "\<exists>hcomp. snd (homog_core exact self fuel cool matr enrich r_cool rho_cool c) = Inr hcomp"
proof -
  let ?v = "vfrac_fuel self"
  have "\<exists>mfr mm. matr_split exact ?v matr = Inr (mfr, mm)"
  proof (cases "truthy matr")
    case True
    with ma obtain m dm where "matr = Some m" "m \<noteq> []" "rhos exact m = Some dm"
      by (auto simp: truthy_def)
    then have "matr_split exact ?v matr
        = Inr (lit exact 0.6,
               fmul exact (fmul exact ?v dm) (fsub exact (lit exact 1) (lit exact 0.6)))"
      by (simp add: matr_split_def)
    then show ?thesis by blast
  next
    case False
    then show ?thesis by (auto simp: truthy_def matr_split_def split: option.splits)
  qed
  then obtain mfr mm where ms: "matr_split exact ?v matr = Inr (mfr, mm)" by blast
  from fu have "rhos exact fuel = Some 10.97 \<or> rhos exact fuel = Some 11.3"
    by (auto simp: rhos_def exact_simps)
  then obtain fd where fd: "rhos exact fuel = Some fd" by blast
  define mf where "mf = ?v * fd * mfr"
  define mc where "mc = (1 - ?v) * rho_cool"
  define rs where "rs = py_round (mf + mc + mm) 5"
  from fu de have "\<exists>p. enrich_fuel exact enrich fuel = Inr p"
    by (auto simp: enrich_fuel_def mats_def molar_mass_def py_div_def exact_simps Let_def)
  then obtain fc mmf where ef: "enrich_fuel exact enrich fuel = Inr (fc, mmf)"
    by fastforce
  from rn ms fd ef have rs0: "rs \<noteq> 0"
    by (simp add: homog_core_def Let_def exact_simps mf_def mc_def rs_def split: sum.splits)
  from co obtain tc where tc: "mats exact cool = Some tc" by blast
  have mt: "truthy matr \<longrightarrow>
      (\<exists>tm. mats exact (case matr of Some m \<Rightarrow> m | None \<Rightarrow> []) = Some tm)"
  proof
    assume "truthy matr"
    with ma obtain m where "matr = Some m" "m \<in> dom (rhos exact)" by blast
    then show "\<exists>tm. mats exact (case matr of Some m \<Rightarrow> m | None \<Rightarrow> []) = Some tm"
      by (auto simp: rhos_def mats_def split: if_splits)
  qed
  from rs0 tc mt obtain cs where "components exact mf mc mm rs fc cool matr = Inr cs"
    by (cases "truthy matr") (auto simp: components_def normed_def)
  with ms fd ef show ?thesis
    by (simp add: homog_core_def Let_def exact_simps mf_def mc_def rs_def)
qed

text \<open>
  C8 as stated fails: with volume fraction 1.5, and with enrichment 2, \<open>homog_core\<close>
  returns a composition.
\<close>

theorem homog_core_no_range_check_counterexample:
  "\<not> (0 < (1.5::real) \<and> (1.5::real) < 1)
   \<and> \<not> isl (snd (homog_core exact (init 30 30 1.5 15) ''UO2'' ''CO2'' None 0.93 0.5
                    0.079082 0.031))
   \<and> \<not> (0 < (2::real) \<and> (2::real) < 1)
   \<and> \<not> isl (snd (homog_core exact (init 30 30 0.5 15) ''UO2'' ''CO2'' None 2 0.5
                    0.079082 0.031))"
  by (simp add: hc_defs exact_eval)

theorem homog_core_no_range_check_witness:
  "''CO2'' \<in> dom (mats exact)
   \<and> rho (fst (homog_core exact (init 30 30 1.5 15) ''UO2'' ''CO2'' None 0.93 0.5
                 0.079082 0.031))
       = Some 16.41546
   \<and> (\<exists>hcomp. snd (homog_core exact (init 30 30 1.5 15) ''UO2'' ''CO2'' None 0.93 0.5
                      0.079082 0.031)
         = Inr hcomp)"
proof -
  let ?hc = "homog_core exact (init 30 30 1.5 15) ''UO2'' ''CO2'' None 0.93 0.5 0.079082 0.031"
  have co: "''CO2'' \<in> dom (mats exact)" by (simp add: mats_def)
  have ma: "truthy None \<longrightarrow> (\<exists>m. None = Some m \<and> m \<in> dom (rhos exact))"
    by (simp add: truthy_def)
  have de: "(0.93::real) / 235.04 + (1 - 0.93) / 238.05 \<noteq> 0" by simp
  have rs: "rho (fst ?hc) = Some 16.41546"
    by (simp add: hc_defs exact_eval)
  then have rn: "rho (fst ?hc) \<noteq> Some 0" by simp
  have fu: "''UO2'' = ''UO2'' \<or> ''UO2'' = ''UN''" by simp
  from homog_core_no_range_check[OF fu co ma de rn] co rs show ?thesis by (intro conjI)
qed

section \<open>write\_mat\_string\<close>

text \<open>
  C7. \<open>write_mat_string\<close> writes the isotopes in ascending order, leaves out the entries
  that are zero and ends every written entry with a line break while its index is below the
  last index of the sorted keys. The claim that no line break follows the last entry
  fails when the isotope with the largest identifier is zero: for the composition
  \<open>{8016: 0.5, 92235: 0.5, 92238: 0.0}\<close> the card ends with a line break after the entry
  of 92235, whatever the number formats are.
\<close>

theorem write_mat_string_last_zero:
  "write_mat_string E self [(8016, 1 / 2), (92235, 1 / 2), (92238, 0)] =
     Inr (self\<lparr>fuel_string := Some (''m1'' @ [NL]
            @ ''     '' @ str_int E 8016 @ '' -'' @ fmt_5e E (1 / 2) @ [NL]
            @ ''     '' @ str_int E 92235 @ '' -'' @ fmt_5e E (1 / 2) @ [NL])\<rparr>)"
  by (simp add: write_mat_string_def Let_def)

section \<open>parse\_output and calc\_keff\_error\<close>

lemma enumerate_filter_snd:
  "map snd (filter (\<lambda>p. P (snd p)) (enumerate n xs)) = filter P xs"
  by (induction xs arbitrary: n) auto

lemma last_marked_line:
  assumes "filter P xs \<noteq> []"
  shows "xs ! last (map fst (filter (\<lambda>p. P (snd p)) (enumerate 0 xs))) = last (filter P xs)"
proof -
  let ?ps = "filter (\<lambda>p. P (snd p)) (enumerate 0 xs)"
  have ne: "?ps \<noteq> []"
    using assms enumerate_filter_snd[of P 0 xs] by (metis list.map_disc_iff)
  then have "last ?ps \<in> set (enumerate 0 xs)"
    using last_in_set[OF ne] by auto
  then have "xs ! fst (last ?ps) = snd (last ?ps)"
    by (auto simp: in_set_enumerate_eq)
  moreover have "last (map fst ?ps) = fst (last ?ps)" using ne by (simp add: last_map)
  moreover have "snd (last ?ps) = last (map snd ?ps)" using ne by (simp add: last_map)
  ultimately show ?thesis by (simp add: enumerate_filter_snd)
qed

text \<open>
  C3. When the output file has a line that contains \<open>final result\<close>, \<open>parse_output\<close>
  returns what \<open>float\<close> makes of the third token, split at white space, of the last such
  line, however many lines match (and raises as that does: \<open>IndexError\<close> when the line has
  fewer than three tokens, \<open>ValueError\<close> when the token is no number). The lines are those
  of \<open>readlines\<close> on a file opened as text: they end at a line feed, at a carriage return
  and at a carriage return with a line feed.
\<close>

theorem parse_output_last_marker:
  assumes "fs (basename @ ''o'') = Some text"
    and "\<exists>l \<in> set (readlines text). contains ''final result'' l"
  shows "parse_output E fs basename =
     (let toks = split (last (filter (contains ''final result'') (readlines text)))
      in if length toks < 3 then Inl IndexError
         else (case py_float E (toks ! 2) of
                 None \<Rightarrow> Inl ValueError
               | Some keff \<Rightarrow> Inr keff))"
proof -
  let ?P = "contains ''final result''"
  let ?ls = "readlines text"
  from assms(2) have ne: "filter ?P ?ls \<noteq> []"
    by (simp add: filter_empty_conv)
  then have ne2: "map fst (filter (\<lambda>p. ?P (snd p)) (enumerate 0 ?ls)) \<noteq> []"
    using enumerate_filter_snd[of ?P 0 ?ls] by (metis list.map_disc_iff)
  have "length toks \<le> 2 \<longleftrightarrow> length toks < 3" for toks :: "string list" by arith
  with ne2 assms(1) last_marked_line[OF ne] show ?thesis
    by (simp add: parse_output_def Let_def)
qed

lemma parse_output_no_marker:
  assumes "fs (basename @ ''o'') = Some text"
    and "\<forall>l \<in> set (readlines text). \<not> contains ''final result'' l"
  shows "parse_output E fs basename = Inl IndexError"
proof -
  from assms(2) have "filter (\<lambda>p. contains ''final result'' (snd p)) (enumerate 0 (readlines text)) = []"
    by (auto simp: filter_empty_conv in_set_enumerate_eq)
  with assms(1) show ?thesis by (simp add: parse_output_def Let_def)
qed

text \<open>
  C4. When the deck was written and no line of the solver's output file contains
  \<open>final result\<close>, \<open>parse_output\<close> raises (\<open>IndexError\<close>, at \<open>res_idx[-1]\<close>) and
  \<open>calc_keff_error\<close> raises the same: the evaluation returns no number.
\<close>

theorem calc_keff_error_no_marker:
  assumes b: "b = str_float E (fround A frac_f 5) @ ''_'' @ str_float E (fround A radius 5) @ ''.i''"
    and w: "write_inp A E fs frac_f radius b coolant fuel matr cool_rho = Inr fs1"
    and o: "mcnp6 E (''n= '' @ b @ '' tasks 8'') fs1 (b @ ''o'') = Some text"
    and n: "\<forall>l \<in> set (readlines text). \<not> contains ''final result'' l"
  shows "parse_output E (mcnp6 E (''n= '' @ b @ '' tasks 8'') fs1) b = Inl IndexError
       \<and> snd (calc_keff_error A E fs radius frac_f coolant fuel matr cool_rho) = Inl IndexError"
proof -
  have p: "parse_output E (mcnp6 E (''n= '' @ b @ '' tasks 8'') fs1) b = Inl IndexError"
    by (rule parse_output_no_marker[where fs = "mcnp6 E (''n= '' @ b @ '' tasks 8'') fs1"
          and basename = b, OF o n])
  from w p have "snd (calc_keff_error A E fs radius frac_f coolant fuel matr cool_rho)
      = Inl IndexError"
    unfolding calc_keff_error_def Let_def b by simp
  with p show ?thesis by simp
qed

text \<open>
  C2 (amended). After an evaluation that returns, the deck and the three files with the
  suffixes \<open>r\<close>, \<open>s\<close> and \<open>o\<close> no longer exist. When the result extraction raises, the
  evaluation raises the same before any removal, and the files are as the solver left them.
\<close>

theorem calc_keff_error_cleanup:
  assumes b: "b = str_float E (fround A frac_f 5) @ ''_'' @ str_float E (fround A radius 5) @ ''.i''"
  shows "(calc_keff_error A E fs radius frac_f coolant fuel matr cool_rho = (fs', Inr err) \<longrightarrow>
           fs' (b @ ''r'') = None \<and> fs' (b @ ''s'') = None \<and> fs' (b @ ''o'') = None
           \<and> fs' b = None)
       \<and> (write_inp A E fs frac_f radius b coolant fuel matr cool_rho = Inr fs1
           \<and> parse_output E (mcnp6 E (''n= '' @ b @ '' tasks 8'') fs1) b = Inl e \<longrightarrow>
           calc_keff_error A E fs radius frac_f coolant fuel matr cool_rho
             = (mcnp6 E (''n= '' @ b @ '' tasks 8'') fs1, Inl e))"
proof (intro conjI impI)
  assume ok: "calc_keff_error A E fs radius frac_f coolant fuel matr cool_rho = (fs', Inr err)"
  then obtain fs2 where "fs' = fs2(b @ ''r'' := None, b @ ''s'' := None, b @ ''o'' := None, b := None)"
    unfolding calc_keff_error_def Let_def b[symmetric]
    by (auto simp: os_remove_def split: sum.splits option.splits)
  then show "fs' (b @ ''r'') = None" "fs' (b @ ''s'') = None" "fs' (b @ ''o'') = None"
    "fs' b = None" by simp_all
next
  assume "write_inp A E fs frac_f radius b coolant fuel matr cool_rho = Inr fs1
           \<and> parse_output E (mcnp6 E (''n= '' @ b @ '' tasks 8'') fs1) b = Inl e"
  then show "calc_keff_error A E fs radius frac_f coolant fuel matr cool_rho
             = (mcnp6 E (''n= '' @ b @ '' tasks 8'') fs1, Inl e)"
    unfolding calc_keff_error_def Let_def b by simp
qed

section \<open>Evaluations with the stub solver\<close>

lemma stub_basename:
  "str_float (stub_env out) (fround exact 0.5 5) @ ''_''
     @ str_float (stub_env out) (fround exact 30 5) @ ''.i'' = ''0.5_30.0.i''"
  by (simp add: stub_env_def exact_eval)

lemma stub_write_inp:
  "write_inp exact (stub_env out) stub_files 0.5 30 ''0.5_30.0.i'' ''H2O'' ''UO2'' None 0.12348
     = Inr (stub_files(''0.5_30.0.i'' \<mapsto> ''deck''))"
  by (simp add: write_inp_def write_mat_string_def write_input_def stub_env_def stub_files_def
      hc_defs exact_eval)

lemma stub_mcnp6:
  "mcnp6 (stub_env out) (''n= '' @ ''0.5_30.0.i'' @ '' tasks 8'') fs
     = fs(''0.5_30.0.ir'' \<mapsto> [], ''0.5_30.0.is'' \<mapsto> [], ''0.5_30.0.io'' \<mapsto> out)"
  by (simp add: stub_env_def stub_solver_def Let_def)

lemma stub_parse_no_result:
  "parse_output (stub_env out)
     (fs(''0.5_30.0.ir'' \<mapsto> [], ''0.5_30.0.is'' \<mapsto> [], ''0.5_30.0.io'' \<mapsto> ''no result'' @ [NL]))
     ''0.5_30.0.i'' = Inl IndexError"
  by (simp add: parse_output_def readlines_def NL_def CR_def Let_def)

lemma stub_parse_result:
  "parse_output (stub_env out)
     (fs(''0.5_30.0.ir'' \<mapsto> [], ''0.5_30.0.is'' \<mapsto> [],
         ''0.5_30.0.io'' \<mapsto> ''final result 1.25'' @ [NL]))
     ''0.5_30.0.i'' = Inr 1.25"
  by (simp add: parse_output_def readlines_def split_def isspace_def NL_def CR_def Let_def
      stub_env_def)

lemma stub_calc_no_result:
  "calc_keff_error exact (stub_env (''no result'' @ [NL])) stub_files 30 0.5 ''H2O'' ''UO2''
      None 0.12348
     = (stub_files(''0.5_30.0.i'' \<mapsto> ''deck'', ''0.5_30.0.ir'' \<mapsto> [],
                   ''0.5_30.0.is'' \<mapsto> [], ''0.5_30.0.io'' \<mapsto> ''no result'' @ [NL]),
        Inl IndexError)"
  unfolding calc_keff_error_def Let_def stub_basename stub_write_inp stub_mcnp6
    stub_parse_no_result
  by simp

lemma stub_calc_result:
  "calc_keff_error exact (stub_env (''final result 1.25'' @ [NL])) stub_files 30 0.5 ''H2O''
      ''UO2'' None 0.12348
     = (stub_files(''0.5_30.0.i'' := None, ''0.5_30.0.ir'' := None,
                   ''0.5_30.0.is'' := None, ''0.5_30.0.io'' := None),
        Inr 0.25)"
  unfolding calc_keff_error_def Let_def stub_basename stub_write_inp stub_mcnp6
    stub_parse_result
  by (simp add: os_remove_def fun_upd_twist exact_simps)

theorem parse_output_last_marker_witness:
  "[''x.io'' \<mapsto> ''final result 0.5 a'' @ [CR] @ ''noise'' @ [CR, NL] @ ''final result 1.25 b'' @ [NL]]
      (''x.i'' @ ''o'')
     = Some (''final result 0.5 a'' @ [CR] @ ''noise'' @ [CR, NL] @ ''final result 1.25 b'' @ [NL])
   \<and> readlines (''final result 0.5 a'' @ [CR] @ ''noise'' @ [CR, NL] @ ''final result 1.25 b'' @ [NL])
       = [''final result 0.5 a'' @ [NL], ''noise'' @ [NL], ''final result 1.25 b'' @ [NL]]
   \<and> contains ''final result'' (''final result 0.5 a'' @ [NL])
   \<and> parse_output (stub_env [])
        [''x.io'' \<mapsto> ''final result 0.5 a'' @ [CR] @ ''noise'' @ [CR, NL] @ ''final result 1.25 b'' @ [NL]]
        ''x.i'' = Inr 1.25"
proof -
  let ?text = "''final result 0.5 a'' @ [CR] @ ''noise'' @ [CR, NL] @ ''final result 1.25 b'' @ [NL]"
  have f: "[''x.io'' \<mapsto> ?text] (''x.i'' @ ''o'') = Some ?text" by simp
  have rl: "readlines ?text
      = [''final result 0.5 a'' @ [NL], ''noise'' @ [NL], ''final result 1.25 b'' @ [NL]]"
    by (simp add: readlines_def NL_def CR_def)
  have c1: "contains ''final result'' (''final result 0.5 a'' @ [NL])" by simp
  have c2: "\<not> contains ''final result'' (''noise'' @ [NL])" by (simp add: NL_def)
  have c3: "contains ''final result'' (''final result 1.25 b'' @ [NL])" by simp
  have ex: "\<exists>l \<in> set (readlines ?text). contains ''final result'' l"
    using c1 by (simp only: rl) simp
  have sp: "split (''final result 1.25 b'' @ [NL]) = [''final'', ''result'', ''1.25'', ''b'']"
    by (simp add: split_def isspace_def NL_def)
  have fl: "filter (contains ''final result'') (readlines ?text)
      = [''final result 0.5 a'' @ [NL], ''final result 1.25 b'' @ [NL]]"
    using c1 c2 c3 by (simp only: rl filter.simps if_True if_False)
  have la: "last (filter (contains ''final result'') (readlines ?text))
      = ''final result 1.25 b'' @ [NL]"
    by (simp only: fl) simp
  have tk: "split (last (filter (contains ''final result'') (readlines ?text)))
      = [''final'', ''result'', ''1.25'', ''b'']"
    by (simp only: la sp)
  have "parse_output (stub_env []) [''x.io'' \<mapsto> ?text] ''x.i'' = Inr 1.25"
    using parse_output_last_marker[where fs = "[''x.io'' \<mapsto> ?text]" and basename = "''x.i''"
        and E = "stub_env []", OF f ex]
    by (simp only: tk Let_def) (simp add: stub_env_def)
  with f rl c1 show ?thesis by (intro conjI)
qed

theorem calc_keff_error_no_marker_witness:
  "write_inp exact (stub_env (''no result'' @ [NL])) stub_files 0.5 30 ''0.5_30.0.i'' ''H2O''
      ''UO2'' None 0.12348 = Inr (stub_files(''0.5_30.0.i'' \<mapsto> ''deck''))
   \<and> readlines (''no result'' @ [NL]) = [''no result'' @ [NL]]
   \<and> \<not> contains ''final result'' (''no result'' @ [NL])
   \<and> snd (calc_keff_error exact (stub_env (''no result'' @ [NL])) stub_files 30 0.5 ''H2O''
        ''UO2'' None 0.12348) = Inl IndexError"
proof -
  let ?E = "stub_env (''no result'' @ [NL])"
  have b: "''0.5_30.0.i'' = str_float ?E (fround exact 0.5 5) @ ''_''
             @ str_float ?E (fround exact 30 5) @ ''.i''"
    by (rule stub_basename[symmetric])
  have w: "write_inp exact ?E stub_files 0.5 30 ''0.5_30.0.i'' ''H2O'' ''UO2'' None 0.12348
             = Inr (stub_files(''0.5_30.0.i'' \<mapsto> ''deck''))"
    by (rule stub_write_inp)
  have o: "mcnp6 ?E (''n= '' @ ''0.5_30.0.i'' @ '' tasks 8'')
             (stub_files(''0.5_30.0.i'' \<mapsto> ''deck'')) (''0.5_30.0.i'' @ ''o'')
             = Some (''no result'' @ [NL])"
    unfolding stub_mcnp6 by simp
  have rl: "readlines (''no result'' @ [NL]) = [''no result'' @ [NL]]"
    by (simp add: readlines_def NL_def CR_def)
  have c: "\<not> contains ''final result'' (''no result'' @ [NL])"
    by (simp add: NL_def)
  have n: "\<forall>l \<in> set (readlines (''no result'' @ [NL])). \<not> contains ''final result'' l"
    using c by (simp only: rl) simp
  from calc_keff_error_no_marker[where E = ?E and A = exact and fs = stub_files, OF b w o n]
  have "snd (calc_keff_error exact ?E stub_files 30 0.5 ''H2O'' ''UO2'' None 0.12348)
      = Inl IndexError"
    by (rule conjunct2)
  with w rl c show ?thesis by (intro conjI)
qed

text \<open>
  C2 as stated fails on the failure path: with an output file without the marker the
  evaluation raises and all four files are still there.
\<close>

theorem calc_keff_error_cleanup_counterexample:
  "snd (calc_keff_error exact (stub_env (''no result'' @ [NL])) stub_files 30 0.5 ''H2O''
        ''UO2'' None 0.12348) = Inl IndexError
   \<and> fst (calc_keff_error exact (stub_env (''no result'' @ [NL])) stub_files 30 0.5 ''H2O''
        ''UO2'' None 0.12348) ''0.5_30.0.i'' = Some ''deck''
   \<and> fst (calc_keff_error exact (stub_env (''no result'' @ [NL])) stub_files 30 0.5 ''H2O''
        ''UO2'' None 0.12348) ''0.5_30.0.ir'' = Some []
   \<and> fst (calc_keff_error exact (stub_env (''no result'' @ [NL])) stub_files 30 0.5 ''H2O''
        ''UO2'' None 0.12348) ''0.5_30.0.is'' = Some []
   \<and> fst (calc_keff_error exact (stub_env (''no result'' @ [NL])) stub_files 30 0.5 ''H2O''
        ''UO2'' None 0.12348) ''0.5_30.0.io'' = Some (''no result'' @ [NL])"
  unfolding stub_calc_no_result by simp

theorem calc_keff_error_cleanup_witness:
  "snd (calc_keff_error exact (stub_env (''final result 1.25'' @ [NL])) stub_files 30 0.5
        ''H2O'' ''UO2'' None 0.12348) = Inr 0.25
   \<and> fst (calc_keff_error exact (stub_env (''final result 1.25'' @ [NL])) stub_files 30 0.5
        ''H2O'' ''UO2'' None 0.12348) (''0.5_30.0.i'' @ ''r'') = None
   \<and> fst (calc_keff_error exact (stub_env (''final result 1.25'' @ [NL])) stub_files 30 0.5
        ''H2O'' ''UO2'' None 0.12348) (''0.5_30.0.i'' @ ''s'') = None
   \<and> fst (calc_keff_error exact (stub_env (''final result 1.25'' @ [NL])) stub_files 30 0.5
        ''H2O'' ''UO2'' None 0.12348) (''0.5_30.0.i'' @ ''o'') = None
   \<and> fst (calc_keff_error exact (stub_env (''final result 1.25'' @ [NL])) stub_files 30 0.5
        ''H2O'' ''UO2'' None 0.12348) ''0.5_30.0.i'' = None
   \<and> calc_keff_error exact (stub_env (''no result'' @ [NL])) stub_files 30 0.5 ''H2O'' ''UO2''
        None 0.12348
       = (mcnp6 (stub_env (''no result'' @ [NL])) (''n= '' @ ''0.5_30.0.i'' @ '' tasks 8'')
            (stub_files(''0.5_30.0.i'' \<mapsto> ''deck'')), Inl IndexError)"
proof -
  let ?E1 = "stub_env (''final result 1.25'' @ [NL])"
  let ?E0 = "stub_env (''no result'' @ [NL])"
  let ?c1 = "calc_keff_error exact ?E1 stub_files 30 0.5 ''H2O'' ''UO2'' None 0.12348"
  have b1: "''0.5_30.0.i'' = str_float ?E1 (fround exact 0.5 5) @ ''_''
             @ str_float ?E1 (fround exact 30 5) @ ''.i''"
    by (rule stub_basename[symmetric])
  have b0: "''0.5_30.0.i'' = str_float ?E0 (fround exact 0.5 5) @ ''_''
             @ str_float ?E0 (fround exact 30 5) @ ''.i''"
    by (rule stub_basename[symmetric])
  have s1: "snd ?c1 = Inr 0.25" unfolding stub_calc_result by simp
  then have ok: "?c1 = (fst ?c1, Inr 0.25)" by (simp add: prod_eq_iff)
  have w: "write_inp exact ?E0 stub_files 0.5 30 ''0.5_30.0.i'' ''H2O'' ''UO2'' None 0.12348
             = Inr (stub_files(''0.5_30.0.i'' \<mapsto> ''deck''))"
    by (rule stub_write_inp)
  have p: "parse_output ?E0 (mcnp6 ?E0 (''n= '' @ ''0.5_30.0.i'' @ '' tasks 8'')
             (stub_files(''0.5_30.0.i'' \<mapsto> ''deck''))) ''0.5_30.0.i'' = Inl IndexError"
    unfolding stub_mcnp6 by (rule stub_parse_no_result)
  from calc_keff_error_cleanup[where E = ?E1 and A = exact and fs = stub_files
      and fs' = "fst ?c1" and err = "0.25", OF b1] ok
  have r1: "fst ?c1 (''0.5_30.0.i'' @ ''r'') = None \<and> fst ?c1 (''0.5_30.0.i'' @ ''s'') = None
      \<and> fst ?c1 (''0.5_30.0.i'' @ ''o'') = None \<and> fst ?c1 ''0.5_30.0.i'' = None"
    by blast
  from calc_keff_error_cleanup[where E = ?E0 and A = exact and fs = stub_files
      and ?fs1.0 = "stub_files(''0.5_30.0.i'' \<mapsto> ''deck'')" and e = IndexError, OF b0] w p
  have r0: "calc_keff_error exact ?E0 stub_files 30 0.5 ''H2O'' ''UO2'' None 0.12348
       = (mcnp6 ?E0 (''n= '' @ ''0.5_30.0.i'' @ '' tasks 8'')
            (stub_files(''0.5_30.0.i'' \<mapsto> ''deck'')), Inl IndexError)"
    by blast
  from s1 r1 r0 show ?thesis by (intro conjI) simp_all
qed

end
